theory Spec2Isabelle
  imports Complex_Main
begin

section \<open>Data model\<close>

text \<open>
  Python exceptions are values. \<open>Exception msg\<close> stands for any other instance of
  Python's \<open>Exception\<close> class, the class that \<open>except Exception\<close> catches.
\<close>

datatype py_error =
    TypeError
  | KeyError
  | ValueError
  | AttributeError
  | IndexError
  | OSError
  | Exception string

text \<open>
  Modelled from the spec: the molecule classes (\<open>Molecule\<close>, \<open>MacroMolecule\<close>) are
  imported by the sources but are not among them. A candidate carries the attributes the
  sources read and write (\<open>name\<close>, \<open>file\<close> as \<open>file_name\<close>, \<open>optimized\<close>, \<open>failed\<close>), the
  content fingerprint \<open>key\<close> that decides the same-as test, an optional fitness and its
  structure \<open>mol\<close>, which is opaque here.
\<close>

record macro_mol =
  name :: string
  file_name :: string
  key :: nat
  optimized :: bool
  failed :: bool
  fitness :: "int option"
  mol :: string

text \<open>
  Modelled from the spec: \<open>Molecule.same\<close> is not among the sources. Two candidates are
  semantically equal iff their fingerprints match, whatever their identity.
\<close>

definition same :: "macro_mol \<Rightarrow> macro_mol \<Rightarrow> bool" where
  "same a b = (key a = key b)"

text \<open>
  \<open>FunctionData\<close> (not among the sources): the name of a function and the keyword
  parameters it is called with.
\<close>

record func_data =
  fd_name :: string
  fd_params :: "(string \<times> string) list"

text \<open>
  Modelled from the spec: \<open>GATools\<close> (not among the sources) is a bundle binding the
  configured operators to a population; \<open>GATools.init_empty()\<close> is the placeholder with
  no operator configured.
\<close>

datatype ga_tools = GATools "(string \<times> func_data) list"

definition init_empty :: ga_tools where
  "init_empty = GATools []"

text \<open>
  \<open>Population\<close>: the directly held members, the subpopulations and the \<open>ga_tools\<close>
  attribute, which holds a \<open>GATools\<close> instance or Python's \<open>None\<close>. The type of the
  members is a parameter: molecules by value, or references into a store where the code
  mutates the molecules in place.
\<close>

datatype 'm population =
  Population (members: "'m list") (populations: "'m population list")
    (ga_tools: "ga_tools option")

text \<open>What \<open>Population.__init__\<close> receives in \<open>*args\<close>, by the type it inspects.\<close>

datatype 'm init_arg =
    Arg_Population "'m population"
  | Arg_MacroMolecule 'm
  | Arg_GATools ga_tools
  | Arg_other

text \<open>
  \<open>Population.__init__\<close>: the arguments are sorted into \<open>populations\<close>, \<open>members\<close> and
  \<open>ga_tools\<close> in the order given; anything else (also \<open>None\<close>) raises \<open>TypeError\<close>.
\<close>

fun init_args :: "'m init_arg list \<Rightarrow> 'm population \<Rightarrow> py_error + 'm population" where
  "init_args [] self = Inr self"
| "init_args (Arg_Population p # args) self =
     init_args args (Population (members self) (populations self @ [p]) (ga_tools self))"
| "init_args (Arg_MacroMolecule m # args) self =
     init_args args (Population (members self @ [m]) (populations self) (ga_tools self))"
| "init_args (Arg_GATools g # args) self =
     init_args args (Population (members self) (populations self) (Some g))"
| "init_args (Arg_other # args) self = Inl TypeError"

definition Population_init :: "'m init_arg list \<Rightarrow> py_error + 'm population" where
  "Population_init args = init_args args (Population [] [] (Some init_empty))"

text \<open>The argument that passing the attribute \<open>ga_tools\<close> to the constructor gives.\<close>

definition tools_arg :: "ga_tools option \<Rightarrow> 'm init_arg" where
  "tools_arg g = (case g of None \<Rightarrow> Arg_other | Some t \<Rightarrow> Arg_GATools t)"

section \<open>The container operations of Population\<close>

text \<open>
  \<open>all_members\<close> (and \<open>__iter__\<close>, which returns it): the members held directly, then
  what each subpopulation's own \<open>all_members\<close> yields, in order.
\<close>

fun all_members :: "'m population \<Rightarrow> 'm list" where
  "all_members (Population ms ps g) = ms @ concat (map all_members ps)"

text \<open>\<open>__len__\<close>: \<open>len(list(self.all_members()))\<close>.\<close>

definition len :: "'m population \<Rightarrow> nat" where
  "len self = length (all_members self)"

text \<open>\<open>__contains__\<close>: \<open>any(item.same(mol) for mol in self.all_members())\<close>.\<close>

definition contains :: "macro_mol population \<Rightarrow> macro_mol \<Rightarrow> bool" where
  "contains self item = list_ex (\<lambda>m. same item m) (all_members self)"

text \<open>\<open>sys.maxsize\<close>, the largest index of the interpreter (a 64-bit build).\<close>

definition sys_maxsize :: int where
  "sys_maxsize = 2 ^ 63 - 1"

text \<open>
  \<open>itertools.islice(iterable, start, stop, step)\<close>: \<open>None\<close> stands for 0, no bound and 1.
  A start or stop that is negative or above \<open>sys.maxsize\<close>, or a step below 1 or above
  \<open>sys.maxsize\<close>, raises \<open>ValueError\<close> when \<open>islice\<close> is called.
\<close>

definition islice ::
  "'a list \<Rightarrow> int option \<Rightarrow> int option \<Rightarrow> int option \<Rightarrow> py_error + 'a list" where
  "islice xs start stop step =
     (let s = (case start of None \<Rightarrow> 0 | Some v \<Rightarrow> v);
          k = (case step of None \<Rightarrow> 1 | Some v \<Rightarrow> v)
      in if s < 0 \<or> sys_maxsize < s
            \<or> (case stop of None \<Rightarrow> False | Some e \<Rightarrow> e < 0 \<or> sys_maxsize < e)
            \<or> k < 1 \<or> sys_maxsize < k
         then Inl ValueError
         else Inr (let ys = drop (nat s) (case stop of None \<Rightarrow> xs | Some e \<Rightarrow> take (nat e) xs)
                   in map (\<lambda>i. ys ! i) (filter (\<lambda>i. i mod nat k = 0) [0..<length ys])))"

text \<open>The keys \<open>__getitem__\<close> tells apart, and what it returns for them.\<close>

datatype index_key =
    Key_int int
  | Key_slice "int option" "int option" "int option"
  | Key_other

datatype 'm item = Item_molecule 'm | Item_population "'m population"

text \<open>
  \<open>__getitem__\<close>. An \<open>int\<close> indexes \<open>list(self.all_members())\<close> as a Python list: a
  negative index counts from the end, an index out of range raises \<open>IndexError\<close>. A slice
  gives a flat population of the sliced members with the \<open>ga_tools\<close> of \<open>self\<close>.
\<close>

definition getitem :: "'m population \<Rightarrow> index_key \<Rightarrow> py_error + 'm item" where
  "getitem self k =
     (case k of
        Key_int i \<Rightarrow>
          (let xs = all_members self; n = int (length xs);
               j = (if i < 0 then n + i else i)
           in if 0 \<le> j \<and> j < n then Inr (Item_molecule (xs ! nat j)) else Inl IndexError)
      | Key_slice start stop step \<Rightarrow>
          (case islice (all_members self) start stop step of
             Inl e \<Rightarrow> Inl e
           | Inr mols \<Rightarrow>
               (case Population_init (map Arg_MacroMolecule mols) of
                  Inl e \<Rightarrow> Inl e
                | Inr pop \<Rightarrow>
                    Inr (Item_population
                          (Population (members pop) (populations pop) (ga_tools self)))))
      | Key_other \<Rightarrow> Inl TypeError)"

text \<open>
  \<open>add_members\<close> without duplicates: \<open>self.members.extend(mol for mol in population if
  mol not in self)\<close>. The generator is consumed while the list grows, so each molecule is
  tested against the members already appended, those of this very call included.
\<close>

fun add_members_new :: "macro_mol population \<Rightarrow> macro_mol list \<Rightarrow> macro_mol population" where
  "add_members_new self [] = self"
| "add_members_new self (m # ms) =
     (if contains self m then add_members_new self ms
      else add_members_new
             (Population (members self @ [m]) (populations self) (ga_tools self)) ms)"

text \<open>
  \<open>add_members(population, duplicates)\<close>; \<open>population\<close> is what iterating the argument
  yields.
\<close>

definition add_members ::
  "macro_mol population \<Rightarrow> macro_mol list \<Rightarrow> bool \<Rightarrow> macro_mol population" where
  "add_members self population duplicates =
     (if duplicates
      then Population (members self @ population) (populations self) (ga_tools self)
      else add_members_new self population)"

text \<open>\<open>add_subpopulation\<close>.\<close>

definition add_subpopulation :: "'m population \<Rightarrow> 'm population \<Rightarrow> 'm population" where
  "add_subpopulation self population =
     Population (members self) (populations self @ [population]) (ga_tools self)"

text \<open>
  \<open>__sub__\<close>: \<open>new_pop = Population(self.ga_tools)\<close>, which raises \<open>TypeError\<close> when the
  attribute is \<open>None\<close>; then \<open>new_pop.add_members(mol for mol in self if mol not in
  other)\<close>.
\<close>

definition sub ::
  "macro_mol population \<Rightarrow> macro_mol population \<Rightarrow> py_error + macro_mol population" where
  "sub self other =
     (case Population_init [tools_arg (ga_tools self)] of
        Inl e \<Rightarrow> Inl e
      | Inr new_pop \<Rightarrow>
          Inr (add_members new_pop
                 (filter (\<lambda>m. \<not> contains other m) (all_members self)) False))"

text \<open>\<open>__add__\<close>: \<open>Population(self, other, self.ga_tools)\<close>.\<close>

definition add :: "'m population \<Rightarrow> 'm population \<Rightarrow> py_error + 'm population" where
  "add self other =
     Population_init [Arg_Population self, Arg_Population other, tools_arg (ga_tools self)]"

text \<open>
  \<open>remove_failures\<close>: at every level, the members whose \<open>failed\<close> flag is set are
  dropped.
\<close>

fun remove_failures :: "macro_mol population \<Rightarrow> macro_mol population" where
  "remove_failures (Population ms ps g) =
     Population (filter (\<lambda>ind. \<not> failed ind) ms) (map remove_failures ps) g"

section \<open>The optimization pipeline\<close>

text \<open>
  An optimization function is called on a molecule, changes it in place and returns
  (its return value is discarded), or raises. Either way the outcome carries the state
  the call left the molecule in. What it raises is an instance of \<open>Exception\<close>.
\<close>

datatype outcome = Returns macro_mol | Raises py_error macro_mol

text \<open>
  A function of the optimization module, called as \<open>partial(func, **params)(macro_mol)\<close>.
\<close>

type_synonym module_func = "(string \<times> string) list \<Rightarrow> macro_mol \<Rightarrow> outcome"

text \<open>
  \<open>do_not_optimize(macro_mol)\<close> returns at once; a keyword parameter it does not take
  makes the call raise \<open>TypeError\<close>.
\<close>

definition do_not_optimize :: module_func where
  "do_not_optimize params macro_mol =
     (if params = [] then Returns macro_mol else Raises TypeError macro_mol)"

text \<open>
  \<open>raiser(macro_mol, param1, param2=2)\<close> always raises: \<open>TypeError\<close> when \<open>param1\<close> is
  missing or another keyword is given, its own exception otherwise.
\<close>

definition raiser :: module_func where
  "raiser params macro_mol =
     (if ''param1'' \<in> set (map fst params)
         \<and> set (map fst params) \<subseteq> {''param1'', ''param2''}
      then Raises (Exception ''Raiser optimization function used.'') macro_mol
      else Raises TypeError macro_mol)"

text \<open>
  \<open>rdkit_optimization(macro_mol)\<close> sanitizes and optimizes the structure with rdkit and
  writes the file. rdkit and the molecule's \<open>write\<close> are outside the sources: \<open>rdkit\<close> is
  what these three calls make of a molecule. A keyword parameter makes the call raise
  \<open>TypeError\<close>.
\<close>

definition rdkit_optimization :: "(macro_mol \<Rightarrow> outcome) \<Rightarrow> module_func" where
  "rdkit_optimization rdkit params macro_mol =
     (if params = [] then rdkit macro_mol else Raises TypeError macro_mol)"

text \<open>
  What \<open>globals()\<close> of the module finds under a name: the three optimization functions
  the module defines, and under every other name what \<open>imported\<close> gives, which stands
  for the imported macromodel functions and for whatever else the namespace of the
  module binds, called the same way.
\<close>

definition module_globals ::
  "(string \<Rightarrow> module_func option) \<Rightarrow> (macro_mol \<Rightarrow> outcome) \<Rightarrow> string \<Rightarrow> module_func option" where
  "module_globals imported rdkit =
     imported(''rdkit_optimization'' \<mapsto> rdkit_optimization rdkit,
              ''do_not_optimize'' \<mapsto> do_not_optimize, ''raiser'' \<mapsto> raiser)"

text \<open>
  What a call leaves behind besides the molecule: the lines it prints and the failure
  that constructing \<open>MolError(ex, macro_mol, msg)\<close> records.
\<close>

datatype event =
    Printed string
  | MolError py_error macro_mol string

text \<open>
  The decorator object \<open>_OptimizationFunc\<close>: the function it wraps and its own attribute
  \<open>optimized\<close>, absent (here \<open>False\<close>) until \<open>__call__\<close> sets it.
\<close>

record optimization_func =
  wrapped :: "macro_mol \<Rightarrow> outcome"
  self_optimized :: bool

definition OptimizationFunc_init :: "(macro_mol \<Rightarrow> outcome) \<Rightarrow> optimization_func" where
  "OptimizationFunc_init func = \<lparr>wrapped = func, self_optimized = False\<rparr>"

text \<open>
  \<open>_OptimizationFunc.__call__\<close>. A molecule whose flag is set is returned as it is. After
  the wrapped function returns, the assignment \<open>self.optimized = True\<close> sets the
  attribute of the decorator object \<open>self\<close>; the molecule is returned as the function
  left it. When the function raises, the handler sets \<open>optimized\<close> and \<open>failed\<close> on the
  molecule, records the failure and returns the molecule.
\<close>

definition OptimizationFunc_call ::
  "optimization_func \<Rightarrow> macro_mol \<Rightarrow> macro_mol \<times> optimization_func \<times> event list" where
  "OptimizationFunc_call self macro_mol =
     (if optimized macro_mol
      then (macro_mol, self, [Printed (''Skipping '' @ file_name macro_mol)])
      else (case wrapped self macro_mol of
              Returns m \<Rightarrow>
                (m, self\<lparr>self_optimized := True\<rparr>,
                 [Printed (CHR 0x0A # ''Optimizing '' @ file_name macro_mol @ ''.'')])
            | Raises ex m \<Rightarrow>
                (let m' = m\<lparr>optimized := True, failed := True\<rparr>
                 in (m', self,
                     [Printed (CHR 0x0A # ''Optimizing '' @ file_name macro_mol @ ''.''),
                      MolError ex m' ''During optimization.'']))))"

text \<open>
  Modelled from the spec: \<open>update_cache\<close> is a method of the molecule classes, which are
  not among the sources. The cache is keyed by fingerprint and is refreshed with the
  processed molecule.
\<close>

definition update_cache :: "macro_mol \<Rightarrow> (nat \<Rightarrow> macro_mol option) \<Rightarrow> (nat \<Rightarrow> macro_mol option)" where
  "update_cache member cache = cache(key member \<mapsto> member)"

text \<open>
  The pipelines work on the molecule objects themselves, and one object may stand at
  several positions of a population: a population holds references, and the store gives
  the state of the object behind each.
\<close>

type_synonym ref = nat
type_synonym store = "ref \<Rightarrow> macro_mol"

text \<open>
  What a worker of the pool does with one batch, \<open>list(map(p_func, batch))\<close>, on its own
  copy of the objects of the batch: an object that stands twice in the batch is one
  object in the worker, so the second call finds it as the first call left it. The
  result pairs each member with what its call printed and recorded, and gives the
  state of the worker's objects after the batch.
\<close>

fun worker_loop ::
  "optimization_func \<Rightarrow> ref list \<Rightarrow> store \<Rightarrow> (ref \<times> event list) list \<times> store" where
  "worker_loop p_func [] s = ([], s)"
| "worker_loop p_func (member # rest) s =
     (case OptimizationFunc_call p_func (s member) of
        (m, p_func', ev) \<Rightarrow>
          (case worker_loop p_func' rest (s(member := m)) of
             (out, s') \<Rightarrow> ((member, ev) # out, s')))"

text \<open>The size of a pool made by \<open>Pool()\<close>: \<open>os.cpu_count() or 1\<close>.\<close>

definition processes :: "nat option \<Rightarrow> nat" where
  "processes cpu_count =
     (case cpu_count of None \<Rightarrow> 1 | Some n \<Rightarrow> (if n = 0 then 1 else n))"

text \<open>
  The batch size \<open>Pool.map\<close> chooses for \<open>n\<close> items: \<open>divmod(n, 4 * workers)\<close>, one more
  when there is a remainder, and 0 for no item.
\<close>

definition chunksize :: "nat \<Rightarrow> nat \<Rightarrow> nat" where
  "chunksize n workers =
     (if n = 0 then 0
      else if n mod (workers * 4) \<noteq> 0 then n div (workers * 4) + 1
      else n div (workers * 4))"

text \<open>
  The batches \<open>Pool.map\<close> cuts the items into: \<open>n\<close> items at a time, as long as there
  are items.
\<close>

function chunks :: "nat \<Rightarrow> 'a list \<Rightarrow> 'a list list" where
  "chunks n xs = (if n = 0 \<or> xs = [] then [] else take n xs # chunks n (drop n xs))"
  by pat_completeness auto
termination
  by (relation "measure (\<lambda>(n, xs). length xs)") auto

declare chunks.simps [simp del]

text \<open>The batches of the members of a population, for a pool of the given size.\<close>

definition task_batches :: "nat option \<Rightarrow> 'm population \<Rightarrow> 'm list list" where
  "task_batches cpu_count population =
     chunks (chunksize (len population) (processes cpu_count)) (all_members population)"

text \<open>
  What \<open>pool.map\<close> returns for the batches from number \<open>j\<close> on. Every batch is pickled
  with the decorator as one job, so each worker starts from the state \<open>s\<close> the objects
  have in the caller, and the caller's objects stay as they are. The objects that come
  back are copies: the copy of the object \<open>member\<close> made by batch \<open>j\<close> is \<open>(j, member)\<close>,
  one object for all its positions in the batch.
\<close>

fun pool_results ::
  "optimization_func \<Rightarrow> nat \<Rightarrow> ref list list \<Rightarrow> store \<Rightarrow> ((nat \<times> ref) \<times> event list) list" where
  "pool_results p_func j [] s = []"
| "pool_results p_func j (batch # rest) s =
     map (\<lambda>(member, ev). ((j, member), ev)) (fst (worker_loop p_func batch s))
       @ pool_results p_func (Suc j) rest s"

text \<open>The state of the copies that came back from the batches.\<close>

definition pool_copies ::
  "optimization_func \<Rightarrow> ref list list \<Rightarrow> store \<Rightarrow> nat \<times> ref \<Rightarrow> macro_mol" where
  "pool_copies p_func batches s =
     (\<lambda>(j, member).
        if j < length batches then snd (worker_loop p_func (batches ! j) s) member
        else s member)"

text \<open>
  \<open>_optimize_all\<close>: the function is looked up by name (\<open>KeyError\<close> when the module has
  none), wrapped, and mapped over the population by the pool. The result holds the list
  the pool returns (the copies, in the order of the members), the state of the copies,
  the cache after \<open>update_cache\<close> of every member of the list, and for each position what
  the call printed and recorded.
\<close>

definition optimize_all ::
  "(string \<Rightarrow> module_func option) \<Rightarrow> nat option \<Rightarrow> func_data \<Rightarrow> ref population \<Rightarrow> store \<Rightarrow>
   (nat \<Rightarrow> macro_mol option) \<Rightarrow>
   py_error + ((nat \<times> ref) list \<times> (nat \<times> ref \<Rightarrow> macro_mol) \<times> (nat \<Rightarrow> macro_mol option)
               \<times> event list list)" where
  "optimize_all globals cpu_count func_data population s cache =
     (case globals (fd_name func_data) of
        None \<Rightarrow> Inl KeyError
      | Some func \<Rightarrow>
          (let p_func = OptimizationFunc_init (func (fd_params func_data));
               batches = task_batches cpu_count population;
               results = pool_results p_func 0 batches s;
               copies = pool_copies p_func batches s;
               optimized = map fst results
           in Inr (optimized, copies,
                   foldl (\<lambda>c member. update_cache (copies member) c) cache optimized,
                   map snd results)))"

text \<open>
  Consuming the generator \<open>(p_func(member) for member in population)\<close> to its end: each
  call changes the object behind the reference and the same object is yielded.
\<close>

fun serial_loop ::
  "optimization_func \<Rightarrow> ref list \<Rightarrow> store \<Rightarrow>
   ref list \<times> optimization_func \<times> store \<times> event list" where
  "serial_loop p_func [] s = ([], p_func, s, [])"
| "serial_loop p_func (member # rest) s =
     (case OptimizationFunc_call p_func (s member) of
        (m, p_func', ev) \<Rightarrow>
          (case serial_loop p_func' rest (s(member := m)) of
             (out, p_func'', s', evs) \<Rightarrow> (member # out, p_func'', s', ev @ evs)))"

text \<open>
  \<open>_optimize_all_serial\<close>, with the generator it returns consumed to its end: the
  objects yielded, the decorator, the store and the output.
\<close>

definition optimize_all_serial ::
  "(string \<Rightarrow> module_func option) \<Rightarrow> func_data \<Rightarrow> ref population \<Rightarrow> store \<Rightarrow>
   py_error + (ref list \<times> optimization_func \<times> store \<times> event list)" where
  "optimize_all_serial globals func_data population s =
     (case globals (fd_name func_data) of
        None \<Rightarrow> Inl KeyError
      | Some func \<Rightarrow>
          Inr (serial_loop (OptimizationFunc_init (func (fd_params func_data)))
                 (all_members population) s))"

text \<open>
  The optimization function is applied to a molecule and raises, or returns leaving
  the molecule as \<open>m\<close>: the wrapper applies it only to a molecule whose flag is not set.
\<close>

definition op_raises :: "(macro_mol \<Rightarrow> outcome) \<Rightarrow> macro_mol \<Rightarrow> bool" where
  "op_raises func c =
     (\<not> optimized c \<and> (case func c of Raises ex m \<Rightarrow> True | Returns m \<Rightarrow> False))"

definition op_returns :: "(macro_mol \<Rightarrow> outcome) \<Rightarrow> macro_mol \<Rightarrow> macro_mol \<Rightarrow> bool" where
  "op_returns func c m = (\<not> optimized c \<and> func c = Returns m)"

text \<open>The state in which one call of the wrapper returns a molecule.\<close>

definition optimized_mol :: "(macro_mol \<Rightarrow> outcome) \<Rightarrow> macro_mol \<Rightarrow> macro_mol" where
  "optimized_mol func c = fst (OptimizationFunc_call (OptimizationFunc_init func) c)"

text \<open>
  The number of candidates reachable from a node, counted without the traversal: those
  held directly plus those reachable from each subpopulation.
\<close>

fun n_candidates :: "'m population \<Rightarrow> nat" where
  "n_candidates (Population ms ps g) = length ms + sum_list (map n_candidates ps)"

text \<open>A molecule fresh from construction, for the concrete runs below.\<close>

definition new_mol :: "string \<Rightarrow> nat \<Rightarrow> macro_mol" where
  "new_mol n k =
     \<lparr>name = n, file_name = n @ ''.mol'', key = k, optimized = False, failed = False,
      fitness = None, mol = []\<rparr>"

text \<open>
  An optimization function for the concrete runs below: it raises on the molecules
  with fingerprint 1 and appends an \<open>x\<close> to the structure of every other molecule.
\<close>

definition fails_on_1 :: module_func where
  "fails_on_1 params macro_mol =
     (if key macro_mol = 1 then Raises (Exception ''no convergence'') macro_mol
      else Returns (macro_mol\<lparr>mol := mol macro_mol @ ''x''\<rparr>))"

definition test_globals :: "string \<Rightarrow> module_func option" where
  "test_globals =
     (module_globals (\<lambda>n. None) (\<lambda>m. Returns m))(''fails_on_1'' \<mapsto> fails_on_1)"

section \<open>The next generation\<close>

text \<open>
  \<open>collections.Counter\<close> keyed by molecules, in insertion order. \<open>counter_add k n\<close> is
  what \<open>update\<close> does for one key: \<open>self[k] = self.get(k, 0) + n\<close>. Keys are compared as
  the molecule objects are, here by value.
\<close>

fun counter_add :: "'k \<Rightarrow> nat \<Rightarrow> ('k \<times> nat) list \<Rightarrow> ('k \<times> nat) list" where
  "counter_add k n [] = [(k, n)]"
| "counter_add k n ((k', c) # rest) =
     (if k' = k then (k', c + n) # rest else (k', c) # counter_add k n rest)"

text \<open>\<open>counter.update(iterable)\<close>: one more for every element.\<close>

definition counter_update :: "'k list \<Rightarrow> ('k \<times> nat) list \<Rightarrow> ('k \<times> nat) list" where
  "counter_update ks counter = foldl (\<lambda>c k. counter_add k 1 c) counter ks"





text \<open>
  The molecules of a sequence that are new by the same-as test: not equal to one seen
  before, the first of several equal ones winning.
\<close>

fun novel :: "macro_mol list \<Rightarrow> macro_mol list \<Rightarrow> macro_mol list" where
  "novel seen [] = []"
| "novel seen (x # xs) =
     (if list_ex (\<lambda>m. same x m) seen then novel seen xs else x # novel (seen @ [x]) xs)"


section \<open>The persisted form of a population\<close>

text \<open>The values \<open>json.load\<close> produces (numbers are integers here).\<close>

datatype json =
    JObject "(string \<times> json) list"
  | JArray "json list"
  | JString string
  | JInt int
  | JBool bool
  | JNull

text \<open>
  Modelled from the spec: \<open>Molecule.json\<close> is not among the sources. A candidate is
  serialized to a flat record (object) of its attributes.
\<close>

definition mol_json :: "macro_mol \<Rightarrow> json" where
  "mol_json m =
     JObject [(''name'', JString (name m)), (''file'', JString (file_name m)),
              (''key'', JInt (int (key m))), (''optimized'', JBool (optimized m)),
              (''failed'', JBool (failed m)),
              (''fitness'', (case fitness m of None \<Rightarrow> JNull | Some v \<Rightarrow> JInt v)),
              (''mol'', JString (mol m))]"

text \<open>Reading one attribute of a record: a missing key or a value of another type raises.\<close>

definition get_string :: "(string \<times> json) list \<Rightarrow> string \<Rightarrow> py_error + string" where
  "get_string d k =
     (case map_of d k of
        None \<Rightarrow> Inl KeyError
      | Some (JString s) \<Rightarrow> Inr s
      | Some _ \<Rightarrow> Inl TypeError)"

definition get_bool :: "(string \<times> json) list \<Rightarrow> string \<Rightarrow> py_error + bool" where
  "get_bool d k =
     (case map_of d k of
        None \<Rightarrow> Inl KeyError
      | Some (JBool b) \<Rightarrow> Inr b
      | Some _ \<Rightarrow> Inl TypeError)"

definition get_nat :: "(string \<times> json) list \<Rightarrow> string \<Rightarrow> py_error + nat" where
  "get_nat d k =
     (case map_of d k of
        None \<Rightarrow> Inl KeyError
      | Some (JInt i) \<Rightarrow> (if 0 \<le> i then Inr (nat i) else Inl ValueError)
      | Some _ \<Rightarrow> Inl TypeError)"

definition get_fitness :: "(string \<times> json) list \<Rightarrow> string \<Rightarrow> py_error + int option" where
  "get_fitness d k =
     (case map_of d k of
        None \<Rightarrow> Inl KeyError
      | Some JNull \<Rightarrow> Inr None
      | Some (JInt i) \<Rightarrow> Inr (Some i)
      | Some _ \<Rightarrow> Inl TypeError)"

text \<open>
  Modelled from the spec: \<open>Molecule.fromdict\<close> is not among the sources. It rebuilds the
  candidate from its record; with \<open>load_names\<close> false the persisted name is discarded and
  the candidate starts with no name.
\<close>

definition fromdict :: "(string \<times> json) list \<Rightarrow> bool \<Rightarrow> py_error + macro_mol" where
  "fromdict d load_names =
     (case get_string d ''name'' of Inl e \<Rightarrow> Inl e | Inr n \<Rightarrow>
     (case get_string d ''file'' of Inl e \<Rightarrow> Inl e | Inr f \<Rightarrow>
     (case get_nat d ''key'' of Inl e \<Rightarrow> Inl e | Inr k \<Rightarrow>
     (case get_bool d ''optimized'' of Inl e \<Rightarrow> Inl e | Inr opt \<Rightarrow>
     (case get_bool d ''failed'' of Inl e \<Rightarrow> Inl e | Inr fl \<Rightarrow>
     (case get_fitness d ''fitness'' of Inl e \<Rightarrow> Inl e | Inr fit \<Rightarrow>
     (case get_string d ''mol'' of Inl e \<Rightarrow> Inl e | Inr s \<Rightarrow>
        Inr \<lparr>name = (if load_names then n else []), file_name = f, key = k,
             optimized = opt, failed = fl, fitness = fit, mol = s\<rparr>)))))))"

text \<open>
  \<open>tolist\<close>: the records of the members held directly, then one nested list for each
  subpopulation.
\<close>

fun tolist :: "macro_mol population \<Rightarrow> json list" where
  "tolist (Population ms ps g) = map mol_json ms @ map (\<lambda>sp. JArray (tolist sp)) ps"

text \<open>
  The loop of \<open>fromlist\<close> over the items still to come, \<open>pop\<close> being the population built
  so far: a dict is a member, a list is a subpopulation built by \<open>fromlist\<close> itself,
  anything else raises \<open>TypeError\<close>.
\<close>

fun fromlist_loop ::
  "json list \<Rightarrow> bool \<Rightarrow> macro_mol population \<Rightarrow> py_error + macro_mol population" where
  "fromlist_loop [] load_names pop = Inr pop"
| "fromlist_loop (JObject d # rest) load_names pop =
     (case fromdict d load_names of
        Inl e \<Rightarrow> Inl e
      | Inr m \<Rightarrow>
          fromlist_loop rest load_names
            (Population (members pop @ [m]) (populations pop) (ga_tools pop)))"
| "fromlist_loop (JArray xs # rest) load_names pop =
     (case fromlist_loop xs load_names (Population [] [] (Some init_empty)) of
        Inl e \<Rightarrow> Inl e
      | Inr sp \<Rightarrow>
          fromlist_loop rest load_names
            (Population (members pop) (populations pop @ [sp]) (ga_tools pop)))"
| "fromlist_loop (item # rest) load_names pop = Inl TypeError"

text \<open>\<open>fromlist(pop_list, load_names)\<close>: \<open>pop = cls()\<close>, then the loop.\<close>

definition fromlist :: "json list \<Rightarrow> bool \<Rightarrow> py_error + macro_mol population" where
  "fromlist pop_list load_names =
     (case Population_init [] of
        Inl e \<Rightarrow> Inl e
      | Inr pop \<Rightarrow> fromlist_loop pop_list load_names pop)"

text \<open>
  What the \<open>for\<close> loop of \<open>fromlist\<close> iterates when \<open>json.load\<close> gave something else than
  a list: the keys of a dict, the characters of a string; the other values are not
  iterable.
\<close>

definition iterate :: "json \<Rightarrow> py_error + json list" where
  "iterate j =
     (case j of
        JArray xs \<Rightarrow> Inr xs
      | JObject d \<Rightarrow> Inr (map (\<lambda>kv. JString (fst kv)) d)
      | JString s \<Rightarrow> Inr (map (\<lambda>c. JString [c]) s)
      | _ \<Rightarrow> Inl TypeError)"

text \<open>
  The files: for a path, what opening it and \<open>json.load\<close> give, a value or the error
  raised. \<open>dump\<close> writes \<open>self.tolist()\<close>.
\<close>

type_synonym files = "string \<Rightarrow> py_error + json"

definition dump :: "macro_mol population \<Rightarrow> string \<Rightarrow> files \<Rightarrow> files" where
  "dump self path fs = fs(path := Inr (JArray (tolist self)))"

text \<open>
  \<open>load(path, ga_tools, load_names)\<close>: the population \<open>fromlist\<close> builds, with its
  \<open>ga_tools\<close> attribute assigned the argument, \<open>None\<close> by default.
\<close>

definition load ::
  "files \<Rightarrow> string \<Rightarrow> ga_tools option \<Rightarrow> bool \<Rightarrow> py_error + macro_mol population" where
  "load fs path tools load_names =
     (case fs path of
        Inl e \<Rightarrow> Inl e
      | Inr j \<Rightarrow>
          (case iterate j of
             Inl e \<Rightarrow> Inl e
           | Inr pop_list \<Rightarrow>
               (case fromlist pop_list load_names of
                  Inl e \<Rightarrow> Inl e
                | Inr pop \<Rightarrow> Inr (Population (members pop) (populations pop) tools))))"

text \<open>
  A tree as \<open>fromlist\<close> builds it: every node carries the empty \<open>GATools\<close> of \<open>cls()\<close>.
\<close>

fun reset_tools :: "'m population \<Rightarrow> 'm population" where
  "reset_tools (Population ms ps g) = Population ms (map reset_tools ps) (Some init_empty)"

text \<open>What \<open>fromdict\<close> makes of the record of a molecule.\<close>

definition reloaded :: "bool \<Rightarrow> macro_mol \<Rightarrow> macro_mol" where
  "reloaded load_names m = (if load_names then m else m\<lparr>name := []\<rparr>)"


section \<open>Crossover\<close>

text \<open>The \<open>Crossover\<close> object: the attributes \<open>__init__\<close> stores.\<close>

record crossover =
  funcs :: "func_data list"
  weights :: "real list option"
  num_crossovers :: int


text \<open>
  The element at which the running sum of the weights first exceeds \<open>t\<close>; the last
  element when it never does.
\<close>

fun weighted_pick :: "'a list \<Rightarrow> real list \<Rightarrow> real \<Rightarrow> 'a option" where
  "weighted_pick [] ps t = None"
| "weighted_pick [x] ps t = Some x"
| "weighted_pick (x # xs) [] t = Some x"
| "weighted_pick (x # xs) (p # ps) t =
     (if t < p then Some x else weighted_pick xs ps (t - p))"

text \<open>
  \<open>np.random.choice(a, p=p)\<close>. numpy is a library outside the repository; this follows
  its documented checks, with exact reals for its floats: \<open>a\<close> must not be empty, and a
  given \<open>p\<close> must have the size of \<open>a\<close>, no negative entry and a sum within
  \<open>sqrt(eps) = 2^-26\<close> of 1, else \<open>ValueError\<close> is raised. \<open>u\<close> is the value of the random
  stream behind the call; its fractional part is the uniform sample in \<open>[0, 1)\<close>.
\<close>

definition random_choice :: "'a list \<Rightarrow> real list option \<Rightarrow> real \<Rightarrow> py_error + 'a" where
  "random_choice a p u =
     (if a = [] then Inl ValueError
      else (case p of
              None \<Rightarrow>
                (case weighted_pick a (replicate (length a) 1) (frac u * real (length a)) of
                   None \<Rightarrow> Inl ValueError
                 | Some x \<Rightarrow> Inr x)
            | Some ps \<Rightarrow>
                if length ps \<noteq> length a then Inl ValueError
                else if list_ex (\<lambda>x. x < 0) ps then Inl ValueError
                else if \<bar>sum_list ps - 1\<bar> > 1 / 2 ^ 26 then Inl ValueError
                else (case weighted_pick a ps (frac u * sum_list ps) of
                        None \<Rightarrow> Inl ValueError
                      | Some x \<Rightarrow> Inr x)))"

text \<open>
  A crossover function, found by \<open>getattr(self, func_data.name)\<close> and called as
  \<open>func(*parents, **func_data.params)\<close>: it returns a population of offspring or raises.
\<close>

datatype xover_outcome = Offspring "macro_mol population" | Failed py_error

type_synonym xover_func = "(string \<times> string) list \<Rightarrow> macro_mol list \<Rightarrow> xover_outcome"

text \<open>
  \<open>str.replace(old, new)\<close> for a non-empty \<open>old\<close>, from left to right; \<open>k\<close> counts the
  characters of a replaced occurrence still to be skipped.
\<close>

fun replace_from :: "nat \<Rightarrow> string \<Rightarrow> string \<Rightarrow> string \<Rightarrow> string" where
  "replace_from k old new [] = []"
| "replace_from k old new (c # cs) =
     (if 0 < k then replace_from (k - 1) old new cs
      else if take (length old) (c # cs) = old
      then new @ replace_from (length old - 1) old new cs
      else c # replace_from 0 old new cs)"

definition replace :: "string \<Rightarrow> string \<Rightarrow> string \<Rightarrow> string" where
  "replace text old new = replace_from 0 old new text"

text \<open>\<open>sep.join(strings)\<close>.\<close>

fun join :: "string \<Rightarrow> string list \<Rightarrow> string" where
  "join sep [] = []"
| "join sep [s] = s"
| "join sep (s # t # ts) = s @ sep @ join sep (t # ts)"

text \<open>
  The message the handler of \<open>__call__\<close> builds from the name of the crossover function
  and the names of the parents.
\<close>

definition errormsg :: "string \<Rightarrow> macro_mol list \<Rightarrow> string" where
  "errormsg fname parents =
     replace (''Crossover function \"'' @ fname @ ''()\" failed on molecules PARENTS.'')
       ''PARENTS'' (join '' and '' (map (\<lambda>p. ''\"'' @ name p @ ''\"'') parents))"

text \<open>
  What \<open>__call__\<close> logs: the progress line with the number of the crossover and
  \<open>num_crossovers\<close>, the debug line for an offspring that has a name, and the error line
  with the exception (\<open>exc_info=True\<close>).
\<close>

datatype log_entry =
    Log_info nat int
  | Log_debug string
  | Log_error string py_error




text \<open>
  What happens to the parent tuple numbered \<open>i\<close>: the function chosen for it and the
  outcome of its call, when the choice and \<open>getattr\<close> do not raise.
\<close>

definition crossover_of ::
  "crossover \<Rightarrow> (string \<Rightarrow> xover_func option) \<Rightarrow> (nat \<Rightarrow> real) \<Rightarrow> nat \<Rightarrow> macro_mol list \<Rightarrow>
   (func_data \<times> xover_outcome) option" where
  "crossover_of self methods draws i parents =
     (case random_choice (funcs self) (weights self) (draws i) of
        Inl e \<Rightarrow> None
      | Inr func_data \<Rightarrow>
          (case methods (fd_name func_data) of
             None \<Rightarrow> None
           | Some func \<Rightarrow> Some (func_data, func (fd_params func_data) parents)))"




text \<open>
  What the loop has done for the parent tuple numbered \<open>i\<close> once it holds the offspring
  population \<open>pop\<close> and the log \<open>logged\<close>: the progress line is logged, the choice and
  \<open>getattr\<close> did not raise, and either the crossover function raised and the error line
  with its name and the parents is logged, or the population contains all its offspring.
\<close>

definition tuple_done ::
  "crossover \<Rightarrow> (string \<Rightarrow> xover_func option) \<Rightarrow> (nat \<Rightarrow> real) \<Rightarrow> nat \<Rightarrow> macro_mol list \<Rightarrow>
   macro_mol population \<Rightarrow> log_entry list \<Rightarrow> bool" where
  "tuple_done self methods draws i parents pop logged =
     (Log_info i (num_crossovers self) \<in> set logged
      \<and> (case crossover_of self methods draws i parents of
           None \<Rightarrow> False
         | Some (func_data, Failed ex) \<Rightarrow>
             Log_error (errormsg (fd_name func_data) parents) ex \<in> set logged
         | Some (func_data, Offspring offspring) \<Rightarrow>
             list_all (contains pop) (all_members offspring)))"


section \<open>Iteration order, indexing and length\<close>

lemma length_all_members: "length (all_members p) = n_candidates p"
proof (induction p)
  case (Population ms ps g)
  have "(\<Sum>x\<leftarrow>ps. length (all_members x)) = sum_list (map n_candidates ps)"
    using Population.IH by (induction ps) auto
  then show ?case
    by (simp add: length_concat comp_def)
qed

lemma len_eq: "len = (\<lambda>p. length (all_members p))"
  by (rule ext) (simp add: len_def)

lemma all_members_sel:
  "all_members p = members p @ concat (map all_members (populations p))"
  by (cases p) simp

text \<open>
  C7. Iterating a population tree yields the members held directly and then, for each
  subpopulation in order, what iterating that subpopulation yields; for an integer \<open>i\<close>
  within \<open>0 \<le> i < len(tree)\<close>, \<open>tree[i]\<close> is the \<open>i\<close>-th candidate of this order; and
  \<open>len(tree)\<close> is the number of candidates reachable from the node, subpopulations
  included.
\<close>

theorem C7_depth_first_order:
  "all_members p = members p @ concat (map all_members (populations p))
   \<and> (0 \<le> i \<and> i < int (len p) \<longrightarrow>
        getitem p (Key_int i) = Inr (Item_molecule (all_members p ! nat i)))
   \<and> len p = n_candidates p
   \<and> len p = length (members p) + sum_list (map len (populations p))"
proof (intro conjI)
  show "all_members p = members p @ concat (map all_members (populations p))"
    by (rule all_members_sel)
  show "0 \<le> i \<and> i < int (len p) \<longrightarrow>
        getitem p (Key_int i) = Inr (Item_molecule (all_members p ! nat i))"
    by (simp add: getitem_def len_def Let_def)
  show "len p = n_candidates p"
    by (simp add: len_def length_all_members)
  show "len p = length (members p) + sum_list (map len (populations p))"
    by (cases p) (simp add: len_eq length_concat comp_def)
qed

theorem C7_depth_first_order_witness:
  "(0::int) \<le> 2 \<and> 2 < int (len (Population [1::nat] [Population [2, 3] [] None] None))
   \<and> getitem (Population [1::nat] [Population [2, 3] [] None] None) (Key_int 2)
       = Inr (Item_molecule 3)
   \<and> all_members (Population [1::nat] [Population [2, 3] [] None] None) = [1, 2, 3]
   \<and> len (Population [1::nat] [Population [2, 3] [] None] None) = 3"
  using C7_depth_first_order [of "Population [1::nat] [Population [2, 3] [] None] None" 2]
  by (simp add: len_def)

section \<open>Subtraction of populations\<close>

lemma add_members_new_populations [simp]:
  "populations (add_members_new self ms) = populations self"
  by (induction ms arbitrary: self) auto

lemma add_members_new_tools [simp]:
  "ga_tools (add_members_new self ms) = ga_tools self"
  by (induction ms arbitrary: self) auto

lemma contains_iff:
  "contains self x \<longleftrightarrow> (\<exists>m \<in> set (all_members self). same x m)"
  by (simp add: contains_def list_ex_iff)

lemma all_members_flat: "populations p = [] \<Longrightarrow> all_members p = members p"
  by (cases p) simp

lemma add_members_new_subset:
  "set (members (add_members_new self ms)) \<subseteq> set (members self) \<union> set ms"
proof (induction ms arbitrary: self)
  case Nil
  then show ?case by simp
next
  case (Cons m ms)
  show ?case
  proof (cases "contains self m")
    case True
    then show ?thesis using Cons.IH [of self] by auto
  next
    case False
    then show ?thesis
      using Cons.IH [of "Population (members self @ [m]) (populations self) (ga_tools self)"]
      by auto
  qed
qed

lemma add_members_new_keeps:
  "contains self x \<Longrightarrow> contains (add_members_new self ms) x"
proof (induction ms arbitrary: self)
  case Nil then show ?case by simp
next
  case (Cons m ms)
  have "contains (Population (members self @ [m]) (populations self) (ga_tools self)) x"
    using Cons.prems by (cases self) (auto simp: contains_iff)
  with Cons show ?case by simp
qed

lemma add_members_new_contains:
  "m \<in> set ms \<Longrightarrow> contains (add_members_new self ms) m"
proof (induction ms arbitrary: self)
  case Nil then show ?case by simp
next
  case (Cons a ms)
  show ?case
  proof (cases "m = a")
    case True
    have "contains (Population (members self @ [a]) (populations self) (ga_tools self)) a"
      by (simp add: contains_iff same_def)
    then show ?thesis using True
      by (auto intro: add_members_new_keeps)
  next
    case False
    with Cons show ?thesis by auto
  qed
qed


lemma add_members_new_novel:
  "populations self = [] \<Longrightarrow>
   add_members_new self ms
     = Population (members self @ novel (members self) ms) [] (ga_tools self)"
proof (induction ms arbitrary: self)
  case Nil
  then show ?case by (cases self) simp
next
  case (Cons m ms)
  then show ?case
    by (simp add: contains_def all_members_flat)
qed

lemma sub_spec:
  assumes "ga_tools O' = Some g"
  shows "\<exists>R. sub O' T = Inr R
           \<and> populations R = [] \<and> ga_tools R = ga_tools O'
           \<and> members R = novel [] (filter (\<lambda>m. \<not> contains T m) (all_members O'))
           \<and> set (all_members R) \<subseteq> set (all_members O')
           \<and> (\<forall>r \<in> set (all_members R). \<forall>t \<in> set (all_members T). \<not> same r t)
           \<and> (\<forall>r \<in> set (all_members R). \<not> contains T r)
           \<and> (\<forall>x \<in> set (all_members O'). \<not> contains T x \<longrightarrow> contains R x)"
proof -
  let ?new = "Population [] [] (Some g) :: macro_mol population"
  let ?keep = "filter (\<lambda>m. \<not> contains T m) (all_members O')"
  let ?R = "add_members_new ?new ?keep"
  have eq: "sub O' T = Inr ?R"
    using assms by (simp add: sub_def Population_init_def tools_arg_def add_members_def)
  have flat: "populations ?R = []" by simp
  have nov: "members ?R = novel [] ?keep"
    using add_members_new_novel [of ?new ?keep] by simp
  have mem: "set (all_members ?R) \<subseteq> set ?keep"
    using add_members_new_subset [of ?new ?keep] by (simp add: all_members_flat)
  have "\<forall>x \<in> set (all_members O'). \<not> contains T x \<longrightarrow> contains ?R x"
    by (auto intro: add_members_new_contains)
  with eq flat nov mem assms show ?thesis
    by (auto simp: contains_iff)
qed


text \<open>
  C4. For every population tree \<open>T\<close> and every offspring population \<open>O'\<close> that carries a
  \<open>GATools\<close> instance, \<open>O' - T\<close> is a flat population with the \<open>ga_tools\<close> of \<open>O'\<close>; it
  holds members of \<open>O'\<close> only, none of them semantically equal (same fingerprint, by the
  same-as test of \<open>in\<close>) to a member of \<open>T\<close>, and it contains, by the same test of
  \<open>in\<close>, every member of \<open>O'\<close> that matches no member of \<open>T\<close>. Its members are, in
  the order of \<open>O'\<close>, the members of \<open>O'\<close> that match no member of \<open>T\<close>, the first of
  several with one fingerprint standing for them all.
\<close>

theorem C4_sub:
  assumes "ga_tools O' = Some g"
  shows "\<exists>R. sub O' T = Inr R
           \<and> populations R = [] \<and> ga_tools R = ga_tools O'
           \<and> members R = novel [] (filter (\<lambda>m. \<not> contains T m) (all_members O'))
           \<and> set (all_members R) \<subseteq> set (all_members O')
           \<and> (\<forall>r \<in> set (all_members R). \<forall>t \<in> set (all_members T). \<not> same r t)
           \<and> (\<forall>r \<in> set (all_members R). \<not> contains T r)
           \<and> (\<forall>x \<in> set (all_members O'). \<not> contains T x \<longrightarrow> contains R x)"
  using assms by (rule sub_spec)

theorem C4_sub_witness:
  "ga_tools (Population [new_mol ''a'' 1, new_mol ''b'' 2] [] (Some init_empty))
     = Some init_empty
   \<and> sub (Population [new_mol ''a'' 1, new_mol ''b'' 2] [] (Some init_empty))
         (Population [] [Population [new_mol ''c'' 1] [] None] None)
       = Inr (Population [new_mol ''b'' 2] [] (Some init_empty))
   \<and> \<not> contains (Population [] [Population [new_mol ''c'' 1] [] None] None) (new_mol ''b'' 2)
   \<and> contains (Population [new_mol ''b'' 2] [] (Some init_empty)) (new_mol ''b'' 2)"
  using C4_sub [of "Population [new_mol ''a'' 1, new_mol ''b'' 2] [] (Some init_empty)"
      init_empty "Population [] [Population [new_mol ''c'' 1] [] None] None"]
  by (simp add: sub_def Population_init_def tools_arg_def add_members_def contains_def
      same_def new_mol_def)


section \<open>The optimization pipeline: completeness, failures, skipping\<close>

lemma call_wrapped:
  "wrapped (fst (snd (OptimizationFunc_call p c))) = wrapped p"
  by (simp add: OptimizationFunc_call_def Let_def split: outcome.splits)

lemma call_fst:
  "fst (OptimizationFunc_call p c) = optimized_mol (wrapped p) c"
  by (simp add: optimized_mol_def OptimizationFunc_call_def OptimizationFunc_init_def Let_def
      split: outcome.splits)

lemma optimized_mol_skip: "optimized c \<Longrightarrow> optimized_mol func c = c"
  by (simp add: optimized_mol_def OptimizationFunc_call_def)

lemma optimized_mol_raises:
  "op_raises func c \<Longrightarrow> failed (optimized_mol func c) \<and> optimized (optimized_mol func c)"
  by (auto simp: op_raises_def optimized_mol_def OptimizationFunc_call_def
      OptimizationFunc_init_def Let_def split: outcome.splits)

lemma optimized_mol_returns: "op_returns func c m \<Longrightarrow> optimized_mol func c = m"
  by (simp add: op_returns_def optimized_mol_def OptimizationFunc_call_def
      OptimizationFunc_init_def)

lemma optimized_mol_funpow_skip:
  "optimized c \<Longrightarrow> (optimized_mol func ^^ n) c = c"
  by (induction n) (simp_all add: optimized_mol_skip)

lemma serial_loop_refs: "fst (serial_loop p rs s) = rs"
proof (induction rs arbitrary: p s)
  case Nil
  then show ?case by simp
next
  case (Cons a rs)
  obtain m p' ev where c: "OptimizationFunc_call p (s a) = (m, p', ev)"
    by (cases "OptimizationFunc_call p (s a)") auto
  obtain out p'' s' evs where l: "serial_loop p' rs (s(a := m)) = (out, p'', s', evs)"
    by (cases "serial_loop p' rs (s(a := m))") auto
  have "out = rs"
    using Cons.IH [of p' "s(a := m)"] unfolding l by simp
  then show ?case
    using c l by simp
qed

lemma serial_loop_store:
  "fst (snd (snd (serial_loop p rs s))) r
     = (optimized_mol (wrapped p) ^^ count_list rs r) (s r)"
proof (induction rs arbitrary: p s)
  case Nil
  then show ?case by simp
next
  case (Cons a rs)
  obtain m p' ev where c: "OptimizationFunc_call p (s a) = (m, p', ev)"
    by (cases "OptimizationFunc_call p (s a)") auto
  have m: "m = optimized_mol (wrapped p) (s a)"
    using call_fst [of p "s a"] c by simp
  have w: "wrapped p' = wrapped p"
    using call_wrapped [of p "s a"] c by simp
  have "fst (snd (snd (serial_loop p (a # rs) s))) r
          = fst (snd (snd (serial_loop p' rs (s(a := m))))) r"
    using c by (simp split: prod.splits)
  also have "\<dots> = (optimized_mol (wrapped p) ^^ count_list rs r) ((s(a := m)) r)"
    using Cons.IH [of p' "s(a := m)"] by (simp only: w)
  also have "\<dots> = (optimized_mol (wrapped p) ^^ count_list (a # rs) r) (s r)"
    using m by (simp add: funpow_swap1)
  finally show ?case .
qed

lemma funpow_raises:
  assumes "k < n" and "op_raises func ((optimized_mol func ^^ k) c)"
  shows "failed ((optimized_mol func ^^ n) c) \<and> optimized ((optimized_mol func ^^ n) c)"
proof -
  let ?c = "(optimized_mol func ^^ Suc k) c"
  have flags: "failed ?c \<and> optimized ?c"
    using optimized_mol_raises [OF assms(2)] by simp
  have "n = (n - Suc k) + Suc k" using assms(1) by simp
  then have "(optimized_mol func ^^ n) c = (optimized_mol func ^^ (n - Suc k)) ?c"
    by (metis funpow_add o_apply)
  then show ?thesis
    using flags optimized_mol_funpow_skip [where c = ?c and func = func and n = "n - Suc k"] by simp
qed

lemma call_skips:
  "optimized c \<Longrightarrow>
     OptimizationFunc_call p c = (c, p, [Printed (''Skipping '' @ file_name c)])"
  by (simp add: OptimizationFunc_call_def)

lemma worker_loop_refs: "map fst (fst (worker_loop p rs s)) = rs"
proof (induction rs arbitrary: p s)
  case Nil
  then show ?case by simp
next
  case (Cons a rs)
  obtain m p' ev where c: "OptimizationFunc_call p (s a) = (m, p', ev)"
    by (cases "OptimizationFunc_call p (s a)") auto
  obtain out s' where l: "worker_loop p' rs (s(a := m)) = (out, s')"
    by (cases "worker_loop p' rs (s(a := m))") auto
  have "map fst out = rs"
    using Cons.IH [of p' "s(a := m)"] unfolding l by simp
  then show ?case
    using c l by simp
qed

lemma worker_loop_store:
  "snd (worker_loop p rs s) r = (optimized_mol (wrapped p) ^^ count_list rs r) (s r)"
proof (induction rs arbitrary: p s)
  case Nil
  then show ?case by simp
next
  case (Cons a rs)
  obtain m p' ev where c: "OptimizationFunc_call p (s a) = (m, p', ev)"
    by (cases "OptimizationFunc_call p (s a)") auto
  have m: "m = optimized_mol (wrapped p) (s a)"
    using call_fst [of p "s a"] c by simp
  have w: "wrapped p' = wrapped p"
    using call_wrapped [of p "s a"] c by simp
  have "snd (worker_loop p (a # rs) s) r = snd (worker_loop p' rs (s(a := m))) r"
    using c by (simp split: prod.splits)
  also have "\<dots> = (optimized_mol (wrapped p) ^^ count_list rs r) ((s(a := m)) r)"
    using Cons.IH [of p' "s(a := m)"] by (simp only: w)
  also have "\<dots> = (optimized_mol (wrapped p) ^^ count_list (a # rs) r) (s r)"
    using m by (simp add: funpow_swap1)
  finally show ?case .
qed

lemma worker_loop_skip:
  assumes "(r, ev) \<in> set (fst (worker_loop p rs s))" and "optimized (s r)"
  shows "ev = [Printed (''Skipping '' @ file_name (s r))]"
  using assms
proof (induction rs arbitrary: p s)
  case Nil
  then show ?case by simp
next
  case (Cons a rs)
  obtain m p' ev' where c: "OptimizationFunc_call p (s a) = (m, p', ev')"
    by (cases "OptimizationFunc_call p (s a)") auto
  obtain out s' where l: "worker_loop p' rs (s(a := m)) = (out, s')"
    by (cases "worker_loop p' rs (s(a := m))") auto
  have "(r, ev) = (a, ev') \<or> (r, ev) \<in> set out"
    using Cons.prems(1) c l by simp
  then show ?case
  proof
    assume "(r, ev) = (a, ev')"
    then show ?thesis
      using c call_skips [of "s a" p] Cons.prems(2) by simp
  next
    assume rest: "(r, ev) \<in> set out"
    have same_r: "(s(a := m)) r = s r"
    proof (cases "r = a")
      case True
      then show ?thesis
        using c call_skips [of "s a" p] Cons.prems(2) by simp
    next
      case False
      then show ?thesis by simp
    qed
    have "(r, ev) \<in> set (fst (worker_loop p' rs (s(a := m))))"
      using rest l by simp
    moreover have "optimized ((s(a := m)) r)"
      using Cons.prems(2) same_r by simp
    ultimately have "ev = [Printed (''Skipping '' @ file_name ((s(a := m)) r))]"
      by (rule Cons.IH)
    then show ?thesis
      using same_r by simp
  qed
qed

lemma pool_results_refs:
  "map (\<lambda>x. snd (fst x)) (pool_results p j batches s) = concat batches"
proof (induction batches arbitrary: j)
  case Nil
  then show ?case by simp
next
  case (Cons b bs)
  have "map (\<lambda>x. snd (fst x)) (map (\<lambda>(member, ev). ((j, member), ev)) (fst (worker_loop p b s)))
          = map fst (fst (worker_loop p b s))"
    by (simp add: case_prod_beta)
  then show ?case
    using Cons.IH [of "Suc j"] by (simp add: worker_loop_refs)
qed

lemma pool_results_set:
  "((i, r), ev) \<in> set (pool_results p j batches s) \<Longrightarrow>
     j \<le> i \<and> i - j < length batches
     \<and> (r, ev) \<in> set (fst (worker_loop p (batches ! (i - j)) s))"
proof (induction batches arbitrary: j)
  case Nil
  then show ?case by simp
next
  case (Cons b bs)
  from Cons.prems
  have "((i, r), ev) \<in> set (map (\<lambda>(member, ev). ((j, member), ev)) (fst (worker_loop p b s)))
        \<or> ((i, r), ev) \<in> set (pool_results p (Suc j) bs s)"
    by simp
  then show ?case
  proof
    assume "((i, r), ev) \<in> set (map (\<lambda>(member, ev). ((j, member), ev)) (fst (worker_loop p b s)))"
    then have "i = j" and "(r, ev) \<in> set (fst (worker_loop p b s))"
      by auto
    then show ?thesis by simp
  next
    assume "((i, r), ev) \<in> set (pool_results p (Suc j) bs s)"
    then have ih: "Suc j \<le> i" "i - Suc j < length bs"
      "(r, ev) \<in> set (fst (worker_loop p (bs ! (i - Suc j)) s))"
      using Cons.IH [of "Suc j"] by auto
    have "i - j = Suc (i - Suc j)"
      using ih(1) by simp
    then show ?thesis
      using ih by simp
  qed
qed

lemma chunks_concat: "0 < n \<Longrightarrow> concat (chunks n xs) = xs"
proof (induction n xs rule: chunks.induct)
  case (1 n xs)
  show ?case
  proof (cases "xs = []")
    case True
    then show ?thesis by (simp add: chunks.simps)
  next
    case False
    then have "concat (chunks n (drop n xs)) = drop n xs"
      using "1.IH" "1.prems" by simp
    then show ?thesis
      using False "1.prems" by (subst chunks.simps) simp
  qed
qed

lemma chunksize_pos: "0 < n \<Longrightarrow> 0 < w \<Longrightarrow> 0 < chunksize n w"
  by (auto simp: chunksize_def)

lemma processes_pos: "0 < processes c"
  by (simp add: processes_def split: option.splits)

lemma task_batches_concat: "concat (task_batches c T) = all_members T"
proof (cases "len T = 0")
  case True
  then show ?thesis
    by (simp add: task_batches_def len_def chunks.simps)
next
  case False
  then show ?thesis
    by (simp add: task_batches_def chunks_concat chunksize_pos processes_pos)
qed

lemma count_list_distinct: "distinct xs \<Longrightarrow> x \<in> set xs \<Longrightarrow> count_list xs x = 1"
  by (induction xs) auto

lemma optimize_all_out:
  assumes "globals (fd_name func_data) = Some func"
  shows "\<exists>out copies cache' evs.
           optimize_all globals cpus func_data T s cache = Inr (out, copies, cache', evs)
         \<and> map snd out = all_members T \<and> length evs = length out
         \<and> (\<forall>i < len T.
               fst (out ! i) < length (task_batches cpus T)
             \<and> all_members T ! i \<in> set (task_batches cpus T ! fst (out ! i))
             \<and> copies (out ! i)
                 = (optimized_mol (func (fd_params func_data))
                      ^^ count_list (task_batches cpus T ! fst (out ! i)) (all_members T ! i))
                     (s (all_members T ! i))
             \<and> (optimized (s (all_members T ! i)) \<longrightarrow>
                  evs ! i = [Printed (''Skipping '' @ file_name (s (all_members T ! i)))]))"
proof -
  let ?p = "OptimizationFunc_init (func (fd_params func_data))"
  let ?b = "task_batches cpus T"
  let ?res = "pool_results ?p 0 ?b s"
  let ?copies = "pool_copies ?p ?b s"
  let ?out = "map fst ?res"
  let ?evs = "map snd ?res"
  have w: "wrapped ?p = func (fd_params func_data)"
    by (simp add: OptimizationFunc_init_def)
  have eq: "optimize_all globals cpus func_data T s cache
              = Inr (?out, ?copies,
                     foldl (\<lambda>c member. update_cache (?copies member) c) cache ?out, ?evs)"
    using assms by (simp add: optimize_all_def Let_def)
  have refs: "map snd ?out = all_members T"
    using pool_results_refs [of ?p 0 ?b s] by (simp add: task_batches_concat comp_def)
  then have n: "length ?res = len T"
    by (metis len_def length_map)
  have pos: "fst (?out ! i) < length ?b
             \<and> all_members T ! i \<in> set (?b ! fst (?out ! i))
             \<and> ?copies (?out ! i)
                 = (optimized_mol (func (fd_params func_data))
                      ^^ count_list (?b ! fst (?out ! i)) (all_members T ! i))
                     (s (all_members T ! i))
             \<and> (optimized (s (all_members T ! i)) \<longrightarrow>
                  ?evs ! i = [Printed (''Skipping '' @ file_name (s (all_members T ! i)))])"
    if i: "i < len T" for i
  proof -
    obtain j r ev where x: "?res ! i = ((j, r), ev)"
      by (metis surj_pair)
    have "snd (?out ! i) = all_members T ! i"
      using refs i n by (metis length_map nth_map)
    then have r: "r = all_members T ! i"
      using x i n by simp
    have "((j, r), ev) \<in> set ?res"
      using x i n by (metis nth_mem)
    then have j: "j < length ?b" and mem: "(r, ev) \<in> set (fst (worker_loop ?p (?b ! j) s))"
      using pool_results_set [of j r ev ?p 0 ?b s] by auto
    have "r \<in> set (map fst (fst (worker_loop ?p (?b ! j) s)))"
      using mem by force
    then have inb: "r \<in> set (?b ! j)"
      by (simp only: worker_loop_refs)
    have st: "?copies (j, r)
          = (optimized_mol (func (fd_params func_data)) ^^ count_list (?b ! j) r) (s r)"
      using j worker_loop_store [of ?p "?b ! j" s r] by (simp add: pool_copies_def w)
    have sk: "ev = [Printed (''Skipping '' @ file_name (s r))]" if "optimized (s r)"
      using worker_loop_skip [OF mem that] .
    have oi: "?out ! i = (j, r)" and ei: "?evs ! i = ev"
      using x i n by simp_all
    show ?thesis
      unfolding oi ei using j inb st sk r by simp
  qed
  show ?thesis
    using eq refs pos by (intro exI conjI) (assumption | simp)+
qed

lemma optimize_all_serial_out:
  assumes "globals (fd_name func_data) = Some func"
  shows "\<exists>p s' evs. optimize_all_serial globals func_data R s = Inr (all_members R, p, s', evs)
           \<and> (\<forall>r. s' r = (optimized_mol (func (fd_params func_data))
                           ^^ count_list (all_members R) r) (s r))"
proof -
  let ?p = "OptimizationFunc_init (func (fd_params func_data))"
  let ?l = "serial_loop ?p (all_members R) s"
  have w: "wrapped ?p = func (fd_params func_data)"
    by (simp add: OptimizationFunc_init_def)
  obtain out p' s' evs where l: "?l = (out, p', s', evs)"
    by (cases ?l) auto
  have out: "out = all_members R"
    using serial_loop_refs [of ?p "all_members R" s] unfolding l by simp
  have st: "\<forall>r. s' r
      = (optimized_mol (func (fd_params func_data)) ^^ count_list (all_members R) r) (s r)"
    using serial_loop_store [of ?p "all_members R" s] unfolding l w by simp
  have "optimize_all_serial globals func_data R s = Inr (all_members R, p', s', evs)"
    using assms l out by (simp add: optimize_all_serial_def)
  then show ?thesis
    using st by blast
qed

text \<open>
  C1. When the module has the optimization function, both pipelines return, and return
  one molecule for every member of the tree, in the tree's order. The pool returns at
  each position a copy of the member at that position, and the state of the copy is
  what the calls of its batch on that object alone make of it: failed and optimized
  once the function has raised on it, exactly as the function left it when the object
  stands once in its batch and the function returns, and, in a tree that holds no
  object twice, what one call of the wrapper makes of the member. The serial pipeline
  yields the very objects of the tree; the state of each object after the run is what
  the calls on that object alone make of it, so it is failed and optimized once the
  function has raised on it, and as the function left it when it was called once and
  returned.
\<close>

theorem C1_pipeline:
  assumes "globals (fd_name func_data) = Some func"
    and "op = func (fd_params func_data)"
  shows "(\<exists>out copies cache' evs.
            optimize_all globals cpus func_data T s cache = Inr (out, copies, cache', evs)
          \<and> map snd out = all_members T
          \<and> (\<forall>i < len T.
                fst (out ! i) < length (task_batches cpus T)
              \<and> all_members T ! i \<in> set (task_batches cpus T ! fst (out ! i))
              \<and> copies (out ! i)
                  = (optimized_mol op
                       ^^ count_list (task_batches cpus T ! fst (out ! i)) (all_members T ! i))
                      (s (all_members T ! i)))
          \<and> (\<forall>i < len T.
                \<forall>k < count_list (task_batches cpus T ! fst (out ! i)) (all_members T ! i).
                op_raises op ((optimized_mol op ^^ k) (s (all_members T ! i))) \<longrightarrow>
                failed (copies (out ! i)) \<and> optimized (copies (out ! i)))
          \<and> (\<forall>i < len T. \<forall>m.
                count_list (task_batches cpus T ! fst (out ! i)) (all_members T ! i) = 1
                \<and> op_returns op (s (all_members T ! i)) m \<longrightarrow> copies (out ! i) = m)
          \<and> (distinct (all_members T) \<longrightarrow>
                (\<forall>i < len T. copies (out ! i) = optimized_mol op (s (all_members T ! i)))))
       \<and> (\<exists>p s' evs.
            optimize_all_serial globals func_data R s = Inr (all_members R, p, s', evs)
          \<and> (\<forall>r. s' r = (optimized_mol op ^^ count_list (all_members R) r) (s r))
          \<and> (\<forall>r. \<forall>k < count_list (all_members R) r.
                op_raises op ((optimized_mol op ^^ k) (s r)) \<longrightarrow>
                failed (s' r) \<and> optimized (s' r))
          \<and> (\<forall>r m. count_list (all_members R) r = 1 \<and> op_returns op (s r) m \<longrightarrow>
                s' r = m))"
proof (rule conjI)
  obtain out copies cache' evs where
    run: "optimize_all globals cpus func_data T s cache = Inr (out, copies, cache', evs)"
    and refs: "map snd out = all_members T"
    and pos: "\<And>i. i < len T \<Longrightarrow>
               fst (out ! i) < length (task_batches cpus T)
             \<and> all_members T ! i \<in> set (task_batches cpus T ! fst (out ! i))
             \<and> copies (out ! i)
                 = (optimized_mol op
                      ^^ count_list (task_batches cpus T ! fst (out ! i)) (all_members T ! i))
                     (s (all_members T ! i))"
    using optimize_all_out [where globals = globals and func_data = func_data and func = func
        and cpus = cpus and T = T and s = s and cache = cache] assms by auto
  have raises: "failed (copies (out ! i)) \<and> optimized (copies (out ! i))"
    if "i < len T"
      "k < count_list (task_batches cpus T ! fst (out ! i)) (all_members T ! i)"
      "op_raises op ((optimized_mol op ^^ k) (s (all_members T ! i)))"
    for i k
    using funpow_raises [OF that(2,3)] pos [OF that(1)] by simp
  have once: "copies (out ! i) = m"
    if "i < len T"
      "count_list (task_batches cpus T ! fst (out ! i)) (all_members T ! i) = 1"
      "op_returns op (s (all_members T ! i)) m"
    for i m
    using pos [OF that(1)] that(2,3) by (simp add: optimized_mol_returns)
  have alone: "copies (out ! i) = optimized_mol op (s (all_members T ! i))"
    if d: "distinct (all_members T)" and i: "i < len T" for i
  proof -
    have "distinct (concat (task_batches cpus T))"
      using d by (simp add: task_batches_concat)
    then have "distinct (task_batches cpus T ! fst (out ! i))"
      using pos [OF i] by (simp add: distinct_concat_iff)
    then have "count_list (task_batches cpus T ! fst (out ! i)) (all_members T ! i) = 1"
      using pos [OF i] by (simp add: count_list_distinct)
    then show ?thesis
      using pos [OF i] by simp
  qed
  show "\<exists>out copies cache' evs.
            optimize_all globals cpus func_data T s cache = Inr (out, copies, cache', evs)
          \<and> map snd out = all_members T
          \<and> (\<forall>i < len T.
                fst (out ! i) < length (task_batches cpus T)
              \<and> all_members T ! i \<in> set (task_batches cpus T ! fst (out ! i))
              \<and> copies (out ! i)
                  = (optimized_mol op
                       ^^ count_list (task_batches cpus T ! fst (out ! i)) (all_members T ! i))
                      (s (all_members T ! i)))
          \<and> (\<forall>i < len T.
                \<forall>k < count_list (task_batches cpus T ! fst (out ! i)) (all_members T ! i).
                op_raises op ((optimized_mol op ^^ k) (s (all_members T ! i))) \<longrightarrow>
                failed (copies (out ! i)) \<and> optimized (copies (out ! i)))
          \<and> (\<forall>i < len T. \<forall>m.
                count_list (task_batches cpus T ! fst (out ! i)) (all_members T ! i) = 1
                \<and> op_returns op (s (all_members T ! i)) m \<longrightarrow> copies (out ! i) = m)
          \<and> (distinct (all_members T) \<longrightarrow>
                (\<forall>i < len T. copies (out ! i) = optimized_mol op (s (all_members T ! i))))"
    using run refs pos raises once alone by blast
next
  obtain p s' evs where
    run: "optimize_all_serial globals func_data R s = Inr (all_members R, p, s', evs)"
    and st: "\<And>r. s' r = (optimized_mol op ^^ count_list (all_members R) r) (s r)"
    using optimize_all_serial_out [where globals = globals and func_data = func_data
        and func = func and R = R and s = s] assms by auto
  have "failed (s' r) \<and> optimized (s' r)"
    if "k < count_list (all_members R) r" "op_raises op ((optimized_mol op ^^ k) (s r))"
    for r k
    using funpow_raises [OF that] st by simp
  moreover have "s' r = m"
    if "count_list (all_members R) r = 1" "op_returns op (s r) m" for r m
    using that st [of r] by (simp add: optimized_mol_returns)
  ultimately show "\<exists>p s' evs.
            optimize_all_serial globals func_data R s = Inr (all_members R, p, s', evs)
          \<and> (\<forall>r. s' r = (optimized_mol op ^^ count_list (all_members R) r) (s r))
          \<and> (\<forall>r. \<forall>k < count_list (all_members R) r.
                op_raises op ((optimized_mol op ^^ k) (s r)) \<longrightarrow>
                failed (s' r) \<and> optimized (s' r))
          \<and> (\<forall>r m. count_list (all_members R) r = 1 \<and> op_returns op (s r) m \<longrightarrow>
                s' r = m)"
    using run st by blast
qed

lemma chunks_Nil: "chunks n [] = []"
  by (simp add: chunks.simps)

lemma chunks_Cons: "0 < n \<Longrightarrow> chunks n (x # xs) = take n (x # xs) # chunks n (drop n (x # xs))"
  by (subst chunks.simps) simp

theorem C1_pipeline_witness:
  "test_globals (fd_name \<lparr>fd_name = ''fails_on_1'', fd_params = []\<rparr>) = Some fails_on_1
   \<and> op_raises (fails_on_1 []) (new_mol ''x'' 1)
   \<and> op_returns (fails_on_1 []) (new_mol ''y'' 2) ((new_mol ''y'' 2)\<lparr>mol := ''x''\<rparr>)
   \<and> task_batches (Some 1) (Population [0 :: ref, 1] [Population [2, 2, 1] [] None] None)
       = [[0, 1], [2, 2], [1]]
   \<and> (\<exists>copies cache' evs.
         optimize_all test_globals (Some 1) \<lparr>fd_name = ''fails_on_1'', fd_params = []\<rparr>
           (Population [0, 1] [Population [2, 2, 1] [] None] None)
           (\<lambda>r. if r = 0 then new_mol ''x'' 1 else if r = 1 then new_mol ''y'' 2
                else new_mol ''z'' 3)
           Map.empty
         = Inr ([(0, 0), (0, 1), (1, 2), (1, 2), (2, 1)], copies, cache', evs)
       \<and> copies (0, 0) = (new_mol ''x'' 1)\<lparr>optimized := True, failed := True\<rparr>
       \<and> copies (0, 1) = (new_mol ''y'' 2)\<lparr>mol := ''x''\<rparr>
       \<and> copies (1, 2) = (new_mol ''z'' 3)\<lparr>mol := ''xx''\<rparr>
       \<and> copies (2, 1) = (new_mol ''y'' 2)\<lparr>mol := ''x''\<rparr>)
   \<and> (\<exists>p s' evs.
         optimize_all_serial test_globals \<lparr>fd_name = ''fails_on_1'', fd_params = []\<rparr>
           (Population [0, 1] [Population [0] [] None] None)
           (\<lambda>r. if r = 0 then new_mol ''x'' 1 else new_mol ''y'' 2)
         = Inr ([0, 1, 0], p, s', evs)
       \<and> s' 0 = (new_mol ''x'' 1)\<lparr>optimized := True, failed := True\<rparr>
       \<and> s' 1 = (new_mol ''y'' 2)\<lparr>mol := ''x''\<rparr>)"
  using C1_pipeline [where globals = test_globals
      and func_data = "\<lparr>fd_name = ''fails_on_1'', fd_params = []\<rparr>" and func = fails_on_1
      and op = "fails_on_1 []" and cpus = "Some 1"
      and T = "Population [0, 1] [Population [2, 2, 1] [] None] None"
      and s = "\<lambda>r. if r = 0 then new_mol ''x'' 1 else if r = 1 then new_mol ''y'' 2
                else new_mol ''z'' 3"
      and cache = Map.empty and R = "Population [0, 1] [Population [0] [] None] None"]
  by (simp add: test_globals_def module_globals_def fails_on_1_def new_mol_def op_raises_def
      op_returns_def optimize_all_def optimize_all_serial_def OptimizationFunc_call_def
      OptimizationFunc_init_def Let_def task_batches_def len_def chunksize_def
      processes_def chunks_Cons chunks_Nil pool_copies_def)

lemma call_returns:
  "op_returns (wrapped p) c m \<Longrightarrow>
     OptimizationFunc_call p c
       = (m, p\<lparr>self_optimized := True\<rparr>,
          [Printed (CHR 0x0A # ''Optimizing '' @ file_name c @ ''.'')])"
  by (simp add: op_returns_def OptimizationFunc_call_def)


lemma chunksize_one: "chunksize (Suc 0) (processes cpus) = Suc 0"
proof -
  have "0 < processes cpus"
    by (rule processes_pos)
  then have "Suc 0 < processes cpus * 4"
    by simp
  then show ?thesis
    by (simp add: chunksize_def)
qed

text \<open>
  C2. The run that shows the flag is not set: \<open>do_not_optimize\<close> is applied to a
  molecule whose \<open>optimized\<close> flag is \<open>False\<close> and returns. The copy the pool returns
  has the flag still \<open>False\<close>; in the serial pipeline the flag that is set is the
  decorator's own, the molecule's stays \<open>False\<close>, and a second run over the same tree
  applies the function to the molecule again.
\<close>

theorem C2_optimized_flag_not_set:
  "(\<exists>copies cache'.
      optimize_all (module_globals imported rdkit) cpus
        \<lparr>fd_name = ''do_not_optimize'', fd_params = []\<rparr>
        (Population [0] [] (Some init_empty)) (\<lambda>r. new_mol ''a'' 1) Map.empty
      = Inr ([(0, 0)], copies, cache', [[Printed (CHR 0x0A # ''Optimizing a.mol.'')]])
    \<and> copies (0, 0) = new_mol ''a'' 1)
   \<and> optimized (new_mol ''a'' 1) = False
   \<and> (\<exists>p s'.
        optimize_all_serial (module_globals imported rdkit)
          \<lparr>fd_name = ''do_not_optimize'', fd_params = []\<rparr>
          (Population [0] [] (Some init_empty)) (\<lambda>r. new_mol ''a'' 1)
        = Inr ([0], p, s', [Printed (CHR 0x0A # ''Optimizing a.mol.'')])
      \<and> self_optimized p = True
      \<and> optimized (s' 0) = False
      \<and> (\<exists>p2 s2.
           optimize_all_serial (module_globals imported rdkit)
             \<lparr>fd_name = ''do_not_optimize'', fd_params = []\<rparr>
             (Population [0] [] (Some init_empty)) s'
           = Inr ([0], p2, s2, [Printed (CHR 0x0A # ''Optimizing a.mol.'')])))"
  by (simp add: module_globals_def do_not_optimize_def new_mol_def optimize_all_def
      optimize_all_serial_def OptimizationFunc_call_def OptimizationFunc_init_def Let_def
      task_batches_def len_def chunksize_one chunks_Cons chunks_Nil pool_copies_def)

text \<open>
  C3. A molecule whose \<open>optimized\<close> flag is set is returned by the wrapper as it is,
  whatever the wrapped function, and the call prints that it skips it. So the pool
  returns for such a member, at its position, a copy in the state of the member, the
  call having printed only that it skips it, and the serial pipeline leaves the state
  of such an object unchanged.
\<close>

theorem C3_optimized_unchanged:
  "(optimized c \<longrightarrow>
      OptimizationFunc_call p_func c = (c, p_func, [Printed (''Skipping '' @ file_name c)]))
   \<and> (\<forall>out copies cache' evs i.
        optimize_all globals cpus func_data T s cache = Inr (out, copies, cache', evs)
        \<and> i < len T \<and> optimized (s (all_members T ! i)) \<longrightarrow>
          snd (out ! i) = all_members T ! i
          \<and> copies (out ! i) = s (all_members T ! i)
          \<and> evs ! i = [Printed (''Skipping '' @ file_name (s (all_members T ! i)))])
   \<and> (\<forall>out p s' evs r.
        optimize_all_serial globals func_data R s = Inr (out, p, s', evs)
        \<and> optimized (s r) \<longrightarrow> s' r = s r)"
proof (intro conjI allI impI)
  show "OptimizationFunc_call p_func c = (c, p_func, [Printed (''Skipping '' @ file_name c)])"
    if "optimized c"
    using that by (rule call_skips)
next
  fix out copies cache' evs i
  assume a: "optimize_all globals cpus func_data T s cache = Inr (out, copies, cache', evs)
        \<and> i < len T \<and> optimized (s (all_members T ! i))"
  then obtain func where f: "globals (fd_name func_data) = Some func"
    by (auto simp: optimize_all_def split: option.splits)
  have refs: "map snd out = all_members T"
    and st: "copies (out ! i)
               = (optimized_mol (func (fd_params func_data))
                    ^^ count_list (task_batches cpus T ! fst (out ! i)) (all_members T ! i))
                   (s (all_members T ! i))"
    and ev: "evs ! i = [Printed (''Skipping '' @ file_name (s (all_members T ! i)))]"
    using optimize_all_out [where globals = globals and func_data = func_data and func = func
        and cpus = cpus and T = T and s = s and cache = cache] f a by auto
  show "snd (out ! i) = all_members T ! i"
    using refs a by (metis len_def length_map nth_map)
  show "copies (out ! i) = s (all_members T ! i)"
    using st a by (simp add: optimized_mol_funpow_skip)
  show "evs ! i = [Printed (''Skipping '' @ file_name (s (all_members T ! i)))]"
    by (rule ev)
next
  fix out p s' evs r
  assume a: "optimize_all_serial globals func_data R s = Inr (out, p, s', evs)
        \<and> optimized (s r)"
  then obtain func where f: "globals (fd_name func_data) = Some func"
    by (auto simp: optimize_all_serial_def split: option.splits)
  have "s' r = (optimized_mol (func (fd_params func_data))
                           ^^ count_list (all_members R) r) (s r)"
    using optimize_all_serial_out [where globals = globals and func_data = func_data
        and func = func and R = R and s = s] f a by auto
  then show "s' r = s r"
    using a by (simp add: optimized_mol_funpow_skip)
qed

theorem C3_optimized_unchanged_witness:
  "optimized ((new_mol ''x'' 1)\<lparr>optimized := True\<rparr>)
   \<and> op_raises (fails_on_1 []) (new_mol ''x'' 1)
   \<and> (\<exists>copies cache'.
        optimize_all test_globals (Some 1) \<lparr>fd_name = ''fails_on_1'', fd_params = []\<rparr>
          (Population [0] [] None) (\<lambda>r. (new_mol ''x'' 1)\<lparr>optimized := True\<rparr>) Map.empty
        = Inr ([(0, 0)], copies, cache', [[Printed ''Skipping x.mol'']])
      \<and> copies (0, 0) = (new_mol ''x'' 1)\<lparr>optimized := True\<rparr>)
   \<and> (\<exists>p s'.
        optimize_all_serial test_globals \<lparr>fd_name = ''fails_on_1'', fd_params = []\<rparr>
          (Population [0] [] None) (\<lambda>r. (new_mol ''x'' 1)\<lparr>optimized := True\<rparr>)
        = Inr ([0], p, s', [Printed ''Skipping x.mol''])
      \<and> s' 0 = (new_mol ''x'' 1)\<lparr>optimized := True\<rparr>)"
  using C3_optimized_unchanged [where c = "(new_mol ''x'' 1)\<lparr>optimized := True\<rparr>"
      and p_func = "OptimizationFunc_init (fails_on_1 [])" and globals = test_globals
      and cpus = "Some 1"
      and func_data = "\<lparr>fd_name = ''fails_on_1'', fd_params = []\<rparr>"
      and T = "Population [0] [] None"
      and s = "\<lambda>r. (new_mol ''x'' 1)\<lparr>optimized := True\<rparr>" and cache = Map.empty
      and R = "Population [0] [] None"]
  by (simp add: test_globals_def module_globals_def fails_on_1_def new_mol_def op_raises_def
      optimize_all_def optimize_all_serial_def OptimizationFunc_call_def
      OptimizationFunc_init_def Let_def task_batches_def len_def chunksize_def
      processes_def chunks_Cons chunks_Nil pool_copies_def)

section \<open>The next generation: size and exhaustion\<close>

lemma counter_update_Nil [simp]: "counter_update [] counter = counter"
  by (simp add: counter_update_def)








section \<open>The persisted form: round trip\<close>

lemma fromdict_mol_json:
  "mol_json m = JObject d \<Longrightarrow> fromdict d load_names = Inr (reloaded load_names m)"
  by (cases "fitness m")
    (auto simp: mol_json_def fromdict_def get_string_def get_bool_def get_nat_def
      get_fitness_def reloaded_def)

lemma fromlist_loop_members:
  "fromlist_loop (map mol_json ms @ rest) load_names pop
     = fromlist_loop rest load_names
         (Population (members pop @ map (reloaded load_names) ms) (populations pop)
            (ga_tools pop))"
proof (induction ms arbitrary: pop)
  case Nil
  then show ?case by (cases pop) simp
next
  case (Cons m ms)
  obtain d where d: "mol_json m = JObject d"
    by (simp add: mol_json_def)
  show ?case
    using Cons.IH fromdict_mol_json [OF d, of load_names] by (simp add: d)
qed

lemma fromlist_loop_populations:
  assumes "\<And>sp. sp \<in> set ps \<Longrightarrow>
             fromlist_loop (tolist sp) load_names (Population [] [] (Some init_empty))
               = Inr (f sp)"
  shows "fromlist_loop (map (\<lambda>sp. JArray (tolist sp)) ps) load_names pop
           = Inr (Population (members pop) (populations pop @ map f ps) (ga_tools pop))"
  using assms
proof (induction ps arbitrary: pop)
  case Nil
  then show ?case by (cases pop) simp
next
  case (Cons sp ps)
  then show ?case by simp
qed

lemma fromlist_loop_tolist:
  "fromlist_loop (tolist p) load_names (Population [] [] (Some init_empty))
     = Inr (map_population (reloaded load_names) (reset_tools p))"
proof (induction p)
  case (Population ms ps g)
  have "fromlist_loop (map (\<lambda>sp. JArray (tolist sp)) ps) load_names
          (Population (map (reloaded load_names) ms) [] (Some init_empty))
        = Inr (Population (map (reloaded load_names) ms)
                 ([] @ map (\<lambda>sp. map_population (reloaded load_names) (reset_tools sp)) ps)
                 (Some init_empty))"
    using fromlist_loop_populations [of ps load_names
        "\<lambda>sp. map_population (reloaded load_names) (reset_tools sp)"
        "Population (map (reloaded load_names) ms) [] (Some init_empty)"]
      Population.IH by simp
  then show ?case
    by (simp add: fromlist_loop_members comp_def)
qed

lemma all_members_map_population:
  "all_members (map_population f p) = map f (all_members p)"
  by (induction p) (simp add: map_concat comp_def cong: map_cong)

lemma all_members_reset_tools: "all_members (reset_tools p) = all_members p"
  by (induction p) (simp add: comp_def cong: map_cong)

lemma shape_reset_tools:
  "map_population (\<lambda>m. ()) (map_population f (reset_tools p))
     = reset_tools (map_population (\<lambda>m. ()) p)"
  by (induction p) (simp add: comp_def)

lemma tolist_sel:
  "tolist p = map mol_json (members p) @ map (\<lambda>sp. JArray (tolist sp)) (populations p)"
  by (cases p) simp

text \<open>
  C9. For every population tree \<open>p\<close>, \<open>fromlist(p.tolist())\<close> returns a tree of the shape
  of \<open>p\<close>: \<open>tolist\<close> gives one record for each member held directly, at its
  position, and one nested list for each subpopulation, and \<open>fromlist\<close> rebuilds the
  members and subpopulations node by node, in the same depth-first order, every node
  with the empty \<open>GATools\<close>. With \<open>load_names\<close> true the members come back as they were;
  with \<open>load_names\<close> false they come back without their names and otherwise as they
  were.
\<close>

theorem C9_roundtrip:
  "fromlist (tolist p) load_names = Inr (map_population (reloaded load_names) (reset_tools p))
   \<and> (\<exists>q. fromlist (tolist p) load_names = Inr q
          \<and> map_population (\<lambda>m. ()) q = reset_tools (map_population (\<lambda>m. ()) p)
          \<and> all_members q = map (reloaded load_names) (all_members p))
   \<and> fromlist (tolist p) True = Inr (reset_tools p)
   \<and> (\<exists>q. fromlist (tolist p) False = Inr q
          \<and> all_members q = map (\<lambda>m. m\<lparr>name := []\<rparr>) (all_members p)
          \<and> (\<forall>m \<in> set (all_members q). name m = []))
   \<and> tolist p = map mol_json (members p) @ map (\<lambda>sp. JArray (tolist sp)) (populations p)"
proof -
  have eq: "fromlist (tolist p) ln = Inr (map_population (reloaded ln) (reset_tools p))" for ln
    by (simp add: fromlist_def Population_init_def fromlist_loop_tolist)
  have "reloaded True = (\<lambda>m. m)"
    by (rule ext) (simp add: reloaded_def)
  then have id: "map_population (reloaded True) (reset_tools p) = reset_tools p"
    by (simp add: population.map_ident)
  have mem: "all_members (map_population (reloaded ln) (reset_tools p))
               = map (reloaded ln) (all_members p)" for ln
    by (simp add: all_members_map_population all_members_reset_tools)
  show ?thesis
    using eq [of load_names] eq [of True] eq [of False] id mem [of load_names] mem [of False]
      shape_reset_tools [of "reloaded load_names" p] tolist_sel [of p]
    by (auto simp: reloaded_def)
qed

theorem C9_roundtrip_witness:
  "fromlist (tolist (Population [new_mol ''a'' 1] [Population [new_mol ''b'' 2] [] None] None))
     False
     = Inr (Population [(new_mol ''a'' 1)\<lparr>name := []\<rparr>]
              [Population [(new_mol ''b'' 2)\<lparr>name := []\<rparr>] [] (Some init_empty)]
              (Some init_empty))
   \<and> name (new_mol ''a'' 1) = ''a''
   \<and> tolist (Population [new_mol ''a'' 1] [Population [new_mol ''b'' 2] [] None] None)
       = [mol_json (new_mol ''a'' 1), JArray [mol_json (new_mol ''b'' 2)]]"
  using C9_roundtrip
    [of "Population [new_mol ''a'' 1] [Population [new_mol ''b'' 2] [] None] None" False]
  by (simp add: reloaded_def new_mol_def)

section \<open>Loading and the tools of a population\<close>

lemma init_args_tools:
  "init_args args self = Inr p \<Longrightarrow> ga_tools self \<noteq> None \<Longrightarrow> ga_tools p \<noteq> None"
  by (induction args self rule: init_args.induct) auto

lemma init_args_no_tools:
  "init_args args self = Inr p \<Longrightarrow> \<forall>g. Arg_GATools g \<notin> set args \<Longrightarrow>
   ga_tools p = ga_tools self"
  by (induction args self rule: init_args.induct) auto

lemma fromlist_loop_tools:
  "fromlist_loop xs load_names pop = Inr p \<Longrightarrow> ga_tools p = ga_tools pop"
  by (induction xs load_names pop arbitrary: p rule: fromlist_loop.induct)
    (auto split: sum.splits)

text \<open>
  C10. \<open>Population.load\<close> assigns its \<open>ga_tools\<close> argument to the population it
  returns, whatever the argument: with the default \<open>None\<close> the loaded population's
  \<open>ga_tools\<close> is \<open>None\<close>. A population that \<open>__init__\<close> returns always holds a \<open>GATools\<close>
  instance, the empty one when none was among its arguments, and one that \<open>fromlist\<close>
  returns holds the empty \<open>GATools\<close>; \<open>load\<close> replaces it. Loading a dumped population returns, under the argument given, what \<open>fromlist\<close>
  makes of the dump.
\<close>

theorem C10_load_tools:
  "(\<forall>p. load fs path tools load_names = Inr p \<longrightarrow> ga_tools p = tools)
   \<and> (\<forall>p. load fs path None load_names = Inr p \<longrightarrow> ga_tools p = None)
   \<and> (\<forall>p. Population_init args = Inr (p :: macro_mol population) \<longrightarrow> ga_tools p \<noteq> None)
   \<and> (\<forall>p. (\<forall>g. Arg_GATools g \<notin> set args)
          \<and> Population_init args = Inr (p :: macro_mol population) \<longrightarrow>
          ga_tools p = Some init_empty)
   \<and> (\<forall>p. fromlist pop_list load_names = Inr p \<longrightarrow> ga_tools p = Some init_empty)
   \<and> load (dump q path fs) path tools load_names
       = Inr (Population (map (reloaded load_names) (members q))
                (map (\<lambda>sp. map_population (reloaded load_names) (reset_tools sp)) (populations q))
                tools)"
proof (intro conjI allI impI)
  show "ga_tools p = tools" if "load fs path tools load_names = Inr p" for p
    using that by (auto simp: load_def split: sum.splits)
  show "ga_tools p = None" if "load fs path None load_names = Inr p" for p
    using that by (auto simp: load_def split: sum.splits)
  show "ga_tools p \<noteq> None" if "Population_init args = Inr p" for p :: "macro_mol population"
    using that init_args_tools [of args "Population [] [] (Some init_empty)" p]
    by (simp add: Population_init_def)
  show "ga_tools p = Some init_empty"
    if "(\<forall>g. Arg_GATools g \<notin> set args) \<and> Population_init args = Inr p"
    for p :: "macro_mol population"
    using that init_args_no_tools [of args "Population [] [] (Some init_empty)" p]
    by (simp add: Population_init_def)
  show "ga_tools p = Some init_empty" if "fromlist pop_list load_names = Inr p" for p
    using that fromlist_loop_tools [of pop_list load_names "Population [] [] (Some init_empty)" p]
    by (simp add: fromlist_def Population_init_def)
  have "fromlist (tolist q) load_names
          = Inr (map_population (reloaded load_names) (reset_tools q))"
    by (simp add: fromlist_def Population_init_def fromlist_loop_tolist)
  then show "load (dump q path fs) path tools load_names
       = Inr (Population (map (reloaded load_names) (members q))
                (map (\<lambda>sp. map_population (reloaded load_names) (reset_tools sp)) (populations q))
                tools)"
    by (cases q) (simp add: load_def dump_def iterate_def comp_def)
qed


theorem C10_load_tools_witness:
  "load (dump (Population [new_mol ''a'' 1] [Population [new_mol ''b'' 2] [] None]
                 (Some init_empty)) ''pop.json'' (\<lambda>p. Inl OSError))
      ''pop.json'' None True
     = Inr (Population [new_mol ''a'' 1] [Population [new_mol ''b'' 2] [] (Some init_empty)] None)
   \<and> ga_tools (Population [new_mol ''a'' 1]
                 [Population [new_mol ''b'' 2] [] (Some init_empty)] None) = None
   \<and> Population_init [Arg_MacroMolecule (new_mol ''a'' 1)]
       = Inr (Population [new_mol ''a'' 1] [] (Some init_empty))
   \<and> fromlist [mol_json (new_mol ''a'' 1)] True
       = Inr (Population [new_mol ''a'' 1] [] (Some init_empty))"
  using C10_load_tools
    [where fs = "dump (Population [new_mol ''a'' 1] [Population [new_mol ''b'' 2] [] None]
                 (Some init_empty)) ''pop.json'' (\<lambda>p. Inl OSError)"
      and path = "''pop.json''" and tools = None and load_names = True
      and args = "[Arg_MacroMolecule (new_mol ''a'' 1)]"
      and pop_list = "[mol_json (new_mol ''a'' 1)]"
      and q = "Population [new_mol ''a'' 1] [Population [new_mol ''b'' 2] [] None]
                 (Some init_empty)"]
  by (simp add: load_def dump_def iterate_def fromlist_def Population_init_def mol_json_def
      fromdict_def get_string_def get_bool_def get_nat_def get_fitness_def new_mol_def
      reloaded_def)

section \<open>Crossover: failures of the crossover functions, weights\<close>






lemma tuple_done_mono:
  assumes "tuple_done self methods draws i parents pop logged"
    and "set logged \<subseteq> set logged'"
    and "\<And>x. contains pop x \<Longrightarrow> contains pop' x"
  shows "tuple_done self methods draws i parents pop' logged'"
  using assms
  by (auto simp: tuple_done_def list_all_iff split: option.splits xover_outcome.splits)










end
